theory Spec2Isabelle
  imports Complex_Main "HOL-Library.Char_ord" "HOL-Library.List_Lexorder" "HOL-Library.Multiset"
    "HOL-Library.AList"
begin

section \<open>Knowledge page: progress records and their durable mirror\<close>

text \<open>
  The page keeps \<open>progressMap\<close>, one \<open>ProgressInfo\<close> per knowledge base name, and mirrors it
  under the key \<open>kb_progress_map\<close> of the browser's local storage. The payload's
  \<open>timestamp\<close> field is not part of the TypeScript interface but is read by the code, always
  through \<open>new Date(progress.timestamp).getTime()\<close> guarded by a truthiness test. The
  datatype below is that field as the code sees it: falsy (absent, null, empty), truthy but
  not a date (\<open>getTime()\<close> is NaN), or a date with its milliseconds since the epoch.
\<close>

datatype timestamp = No_timestamp | Invalid_date | Epoch_ms int

text \<open>Results of \<open>getTime()\<close> and of the arithmetic on them: an integer or NaN.\<close>

datatype js_number = NaN | Num int

fun js_sub :: "js_number \<Rightarrow> js_number \<Rightarrow> js_number" where
  "js_sub (Num a) (Num b) = Num (a - b)"
| "js_sub _ _ = NaN"

fun js_lt :: "js_number \<Rightarrow> js_number \<Rightarrow> bool" where
  "js_lt (Num a) (Num b) = (a < b)"
| "js_lt _ _ = False"

fun js_gt :: "js_number \<Rightarrow> js_number \<Rightarrow> bool" where
  "js_gt (Num a) (Num b) = (a > b)"
| "js_gt _ _ = False"

fun js_falsy :: "js_number \<Rightarrow> bool" where
  "js_falsy NaN = True"
| "js_falsy (Num a) = (a = 0)"

fun getTime :: "timestamp \<Rightarrow> js_number" where
  "getTime (Epoch_ms t) = Num t"
| "getTime _ = NaN"

record progress_info =
  stage :: string
  message :: string
  current :: int
  total :: int
  file_name :: "string option"
  progress_percent :: int
  error :: "string option"
  timestamp :: timestamp

record kb_info =
  name :: string
  is_default :: bool
  raw_documents :: int
  images :: int
  content_lists :: int
  rag_initialized :: bool

text \<open>
  Local storage, one typed slot per key. \<open>item\<close> is the stored text: absent, text that
  \<open>JSON.parse\<close> rejects, or the JSON of a value. \<open>getItem\<close>, \<open>setItem\<close> and
  \<open>removeItem\<close> can throw
  (storage disabled, quota exceeded); every call site of the source wraps them in
  \<open>try\<close>/\<open>catch\<close>, so a throw is the value \<open>None\<close> here and the caller's \<open>catch\<close> is a
  branch of the caller.
\<close>

datatype 'a json_text = Unparsable | Json 'a

record 'a local_storage =
  item :: "'a json_text option"
  get_throws :: bool
  set_throws :: bool
  remove_throws :: bool

definition getItem :: "'a local_storage \<Rightarrow> 'a json_text option option" where
  "getItem ls = (if get_throws ls then None else Some (item ls))"

definition setItem :: "'a \<Rightarrow> 'a local_storage \<Rightarrow> 'a local_storage option" where
  "setItem v ls = (if set_throws ls then None else Some (ls\<lparr>item := Some (Json v)\<rparr>))"

definition removeItem :: "'a local_storage \<Rightarrow> 'a local_storage option" where
  "removeItem ls = (if remove_throws ls then None else Some (ls\<lparr>item := None\<rparr>))"

datatype ready_state = CONNECTING | OPEN | CLOSING | CLOSED

text \<open>
  A socket as the registry sees it: its \<open>readyState\<close> and the \<open>kb\<close> object that its
  \<open>onmessage\<close> closure captured when the socket was created.
\<close>

record web_socket =
  readyState :: ready_state
  captured_kb :: kb_info

record kp_state =
  progressMap :: "string \<rightharpoonup> progress_info"
  localStorage :: "(string \<rightharpoonup> progress_info) local_storage"
  wsConnectionsRef :: "(string \<times> web_socket) list"
  kbsNamesRef :: "string list"

definition thirtyMinutes :: int where
  "thirtyMinutes = 30 * 60 * 1000"

definition fiveMinutes :: int where
  "fiveMinutes = 5 * 60 * 1000"

subsection \<open>Restoring the map on mount\<close>

text \<open>The test applied to each entry of the parsed map (the body of the \<open>forEach\<close>).\<close>

definition keep_restored :: "int \<Rightarrow> progress_info \<Rightarrow> bool" where
  "keep_restored now progress =
     (if timestamp progress \<noteq> No_timestamp then
        (let progressTime = getTime (timestamp progress);
             age = js_sub (Num now) progressTime
         in stage progress = ''completed'' \<or> stage progress = ''error'' \<or>
            js_lt age (Num thirtyMinutes))
      else stage progress = ''completed'' \<or> stage progress = ''error'')"

definition cleaned_map ::
  "int \<Rightarrow> (string \<rightharpoonup> progress_info) \<Rightarrow> (string \<rightharpoonup> progress_info)" where
  "cleaned_map now parsed =
     (\<lambda>kbName. case parsed kbName of
                  None \<Rightarrow> None
                | Some progress \<Rightarrow> if keep_restored now progress then Some progress else None)"

text \<open>
  The mount effect. Nothing happens when reading throws, when nothing is saved or when the
  saved text does not parse. Otherwise the cleaned map becomes the state and is then
  written back; a throwing write is caught after the state was set.
\<close>

definition restore_progress :: "int \<Rightarrow> kp_state \<Rightarrow> kp_state" where
  "restore_progress now st =
     (case getItem (localStorage st) of
        None \<Rightarrow> st
      | Some None \<Rightarrow> st
      | Some (Some Unparsable) \<Rightarrow> st
      | Some (Some (Json parsed)) \<Rightarrow>
          (let cleaned = cleaned_map now parsed;
               st1 = st\<lparr>progressMap := cleaned\<rparr>
           in case setItem cleaned (localStorage st1) of
                None \<Rightarrow> st1
              | Some ls \<Rightarrow> st1\<lparr>localStorage := ls\<rparr>))"

subsection \<open>Messages on a progress socket\<close>

text \<open>
  The text of a message event after \<open>JSON.parse\<close>: not JSON, \<open>type = progress\<close> with its
  \<open>data\<close> (absent or falsy data is \<open>None\<close>), \<open>type = error\<close>, or any other type.
\<close>

datatype ws_payload =
    Bad_json
  | Progress_msg "progress_info option"
  | Error_msg string
  | Other_msg

text \<open>
  The staleness test of the handler, for a payload whose stage is neither \<open>completed\<close> nor
  \<open>error\<close>: the time is 0 when the timestamp is falsy, and the update is skipped when the
  time is falsy or more than five minutes behind \<open>now\<close>.
\<close>

definition stale_for_ready :: "int \<Rightarrow> progress_info \<Rightarrow> bool" where
  "stale_for_ready now d =
     (let progressTime = (if timestamp d \<noteq> No_timestamp then getTime (timestamp d) else Num 0)
      in js_falsy progressTime \<or> js_gt (js_sub (Num now) progressTime) (Num fiveMinutes))"

definition store_progress :: "string \<Rightarrow> progress_info \<Rightarrow> kp_state \<Rightarrow> kp_state" where
  "store_progress kbName d st =
     (let updated = (progressMap st)(kbName \<mapsto> d);
          st1 = st\<lparr>progressMap := updated\<rparr>
      in case setItem updated (localStorage st1) of
           None \<Rightarrow> st1
         | Some ls \<Rightarrow> st1\<lparr>localStorage := ls\<rparr>)"

text \<open>
  The \<open>onmessage\<close> handler of the socket that was created for \<open>kb\<close>: the ready flag it
  tests is the one of that object.
\<close>

definition ws_onmessage :: "kb_info \<Rightarrow> int \<Rightarrow> ws_payload \<Rightarrow> kp_state \<Rightarrow> kp_state" where
  "ws_onmessage kb now ev st =
     (case ev of
        Progress_msg (Some d) \<Rightarrow>
          if rag_initialized kb \<and> stage d \<noteq> ''completed'' \<and> stage d \<noteq> ''error'' \<and>
             stale_for_ready now d
          then st
          else store_progress (name kb) d st
      | _ \<Rightarrow> st)"

text \<open>Messages of one socket in arrival order, each with the clock at its receipt.\<close>

fun deliver_all :: "kb_info \<Rightarrow> (int \<times> ws_payload) list \<Rightarrow> kp_state \<Rightarrow> kp_state" where
  "deliver_all kb [] st = st"
| "deliver_all kb ((now, ev) # evs) st = deliver_all kb evs (ws_onmessage kb now ev st)"

subsection \<open>Keeping one socket per knowledge base\<close>

text \<open>
  What the effect does to the outside world: sockets it creates and sockets it closes.
\<close>

datatype ws_effect = Opened string | Closed string

text \<open>\<open>names.join(",")\<close>\<close>

fun join_comma :: "string list \<Rightarrow> string" where
  "join_comma [] = ''''"
| "join_comma [x] = x"
| "join_comma (x # y # ys) = x @ '','' @ join_comma (y # ys)"

definition close_if_live :: "string \<times> web_socket \<Rightarrow> ws_effect list" where
  "close_if_live e =
     (if readyState (snd e) = OPEN \<or> readyState (snd e) = CONNECTING then [Closed (fst e)]
      else [])"

definition new_WebSocket :: "kb_info \<Rightarrow> web_socket" where
  "new_WebSocket kb = \<lparr>readyState = CONNECTING, captured_kb = kb\<rparr>"

text \<open>
  One round of \<open>kbs.forEach\<close>: a name that has a socket which is not \<open>CLOSED\<close> is left
  alone, any other name gets a new socket under its key. The local \<open>connections\<close> object
  and \<open>wsConnectionsRef.current\<close> receive the same assignments, so one association list
  stands for both.
\<close>

definition open_missing ::
  "(string \<times> web_socket) list \<times> ws_effect list \<Rightarrow> kb_info \<Rightarrow>
   (string \<times> web_socket) list \<times> ws_effect list" where
  "open_missing acc kb =
     (case map_of (fst acc) (name kb) of
        Some ws \<Rightarrow>
          if readyState ws \<noteq> CLOSED then acc
          else (AList.update (name kb) (new_WebSocket kb) (fst acc),
                snd acc @ [Opened (name kb)])
      | None \<Rightarrow>
          (AList.update (name kb) (new_WebSocket kb) (fst acc),
           snd acc @ [Opened (name kb)]))"

text \<open>\<open>kbs.find((kb) => kb.name === kbName)\<close> finds something.\<close>

definition tracked :: "kb_info list \<Rightarrow> string \<times> web_socket \<Rightarrow> bool" where
  "tracked kbs e = (fst e \<in> set (map name kbs))"

text \<open>
  The effect on \<open>[kbs, loading]\<close>, returning the new refs and what it opened and closed.
  The two name lists are compared as sorted, comma-joined strings. \<open>sort\<close> orders the
  strings character by character; the comparison only needs both lists sorted the same way.
\<close>

definition sync_connections ::
  "kb_info list \<Rightarrow> bool \<Rightarrow> kp_state \<Rightarrow> kp_state \<times> ws_effect list" where
  "sync_connections kbs loading st =
     (if loading then (st, [])
      else
        (let currentKbNamesStr = join_comma (sort (map name kbs));
             prevKbNamesStr = join_comma (sort (kbsNamesRef st))
         in if currentKbNamesStr = prevKbNamesStr \<and> currentKbNamesStr \<noteq> '''' \<and>
               length (wsConnectionsRef st) > 0
            then (st, [])
            else if length kbs = 0 then
              (if length (wsConnectionsRef st) > 0
               then (st\<lparr>wsConnectionsRef := [], kbsNamesRef := []\<rparr>,
                     concat (map close_if_live (wsConnectionsRef st)))
               else (st\<lparr>kbsNamesRef := []\<rparr>, []))
            else
              (let dropped = filter (\<lambda>e. \<not> tracked kbs e) (wsConnectionsRef st);
                   remaining = filter (tracked kbs) (wsConnectionsRef st);
                   opened = foldl open_missing (remaining, []) kbs
               in (st\<lparr>wsConnectionsRef := fst opened, kbsNamesRef := map name kbs\<rparr>,
                   concat (map close_if_live dropped) @ snd opened))))"


text \<open>
  A message event on the socket stored under \<open>kbName\<close>. The handler is the closure made
  in the \<open>kbs.forEach\<close> round that created the socket, so the \<open>kb\<close> it reads is the object
  the list held at that time; the early return of the effect keeps the socket, and with it
  that object, for as long as the names stay the same.
\<close>

definition socket_onmessage :: "string \<Rightarrow> int \<Rightarrow> ws_payload \<Rightarrow> kp_state \<Rightarrow> kp_state" where
  "socket_onmessage kbName now ev st =
     (case map_of (wsConnectionsRef st) kbName of
        None \<Rightarrow> st
      | Some ws \<Rightarrow> ws_onmessage (captured_kb ws) now ev st)"

fun socket_deliver_all :: "string \<Rightarrow> (int \<times> ws_payload) list \<Rightarrow> kp_state \<Rightarrow> kp_state" where
  "socket_deliver_all kbName [] st = st"
| "socket_deliver_all kbName ((now, ev) # evs) st =
     socket_deliver_all kbName evs (socket_onmessage kbName now ev st)"

section \<open>Solver session hook\<close>

datatype msg_role = User | Assistant

text \<open>
  \<open>SolverMessage\<close>; its optional \<open>timestamp\<close> is the field \<open>msg_timestamp\<close> here, the name
  \<open>timestamp\<close> being the progress record's field above.
\<close>

record solver_message =
  role :: msg_role
  content :: string
  output_dir :: "string option"
  msg_timestamp :: "string option"

record token_stats =
  model :: string
  calls :: int
  tokens :: int
  input_tokens :: int
  output_tokens :: int
  cost :: real

text \<open>\<open>SolverSession\<close>; the field \<open>id\<close> is \<open>id_s\<close> here.\<close>

record solver_session =
  id_s :: string
  title :: string
  knowledge_base :: string
  messages :: "solver_message list"
  token_stats :: token_stats
  created_at :: string
  updated_at :: string
  is_active :: bool
  message_count :: int

text \<open>Requests the hook sends, in the order of the \<open>fetch\<close> calls.\<close>

datatype request =
    Post_message string msg_role string "string option"
  | Put_session string string string

text \<open>
  What a \<open>fetch\<close> followed by \<open>response.json()\<close> can give: the promise rejects, the status
  is not ok, the body is not JSON, or the body is JSON (\<open>null\<close> or a session).
\<close>

datatype fetch_result =
    Fetch_rejected
  | Http_not_ok
  | Http_ok_bad_body
  | Http_ok "solver_session option"

text \<open>
  The hook's state as far as the operations below read or write it: the \<open>session\<close> state,
  \<open>lastMessagesRef\<close> (the stringified messages, \<open>None\<close> for the empty string), the cache
  slot \<open>deeptutor-solver-session\<close>, the requests sent so far, and the timer machinery that
  the \<open>debounce\<close> closure lives on: the clock in milliseconds, the pending timers (handle,
  due time, argument of the call) and the closure's \<open>timeout\<close> variable. Timer handles are
  positive, so \<open>if (timeout)\<close> holds exactly when a handle was stored.
\<close>

record hook_state =
  session :: "solver_session option"
  lastMessagesRef :: "solver_message list option"
  cache :: "solver_session option local_storage"
  requests :: "request list"
  clock :: nat
  timers :: "(nat \<times> nat \<times> solver_session) list"
  next_handle :: nat
  timeout :: "nat option"

definition saveToCache :: "solver_session option \<Rightarrow> hook_state \<Rightarrow> hook_state" where
  "saveToCache v st =
     (case setItem v (cache st) of None \<Rightarrow> st | Some ls \<Rightarrow> st\<lparr>cache := ls\<rparr>)"

definition clearCache :: "hook_state \<Rightarrow> hook_state" where
  "clearCache st =
     (case removeItem (cache st) of None \<Rightarrow> st | Some ls \<Rightarrow> st\<lparr>cache := ls\<rparr>)"

text \<open>\<open>outputDir || null\<close>\<close>

definition or_null :: "string option \<Rightarrow> string option" where
  "or_null outputDir =
     (case outputDir of None \<Rightarrow> None | Some s \<Rightarrow> if s = '''' then None else Some s)"

text \<open>
  \<open>addMessage\<close>, with the clock's ISO string and the outcome of the request as arguments.
  The request is logged when \<open>fetch\<close> is called, whatever comes back.
  A body that is \<open>null\<close> passes \<open>setSession\<close> and \<open>saveToCache\<close> and then throws at
  \<open>data.messages\<close>, which lands in the same \<open>catch\<close> as a failed request.
\<close>

definition addMessage ::
  "msg_role \<Rightarrow> string \<Rightarrow> string option \<Rightarrow> string \<Rightarrow> fetch_result \<Rightarrow> hook_state \<Rightarrow>
   solver_session option \<times> hook_state" where
  "addMessage r c outputDir now_iso resp st =
     (case session st of
        None \<Rightarrow> (None, st)
      | Some s \<Rightarrow>
          (let st1 = st\<lparr>requests := requests st @ [Post_message (id_s s) r c outputDir]\<rparr>
           in case resp of
                Http_ok (Some data) \<Rightarrow>
                  (Some data,
                   (saveToCache (Some data) (st1\<lparr>session := Some data\<rparr>))
                     \<lparr>lastMessagesRef := Some (messages data)\<rparr>)
              | _ \<Rightarrow>
                  (let st2 = (case resp of
                                Http_ok None \<Rightarrow> saveToCache None (st1\<lparr>session := None\<rparr>)
                              | _ \<Rightarrow> st1);
                       updatedSession =
                         s\<lparr>messages := messages s @
                              [\<lparr>role = r, content = c, output_dir = or_null outputDir,
                                msg_timestamp = Some now_iso\<rparr>],
                           message_count := message_count s + 1\<rparr>
                   in (Some updatedSession,
                       saveToCache (Some updatedSession)
                         (st2\<lparr>session := Some updatedSession\<rparr>)))))"

definition clearSession :: "hook_state \<Rightarrow> hook_state" where
  "clearSession st = (clearCache st)\<lparr>session := None, lastMessagesRef := None\<rparr>"

subsection \<open>The debounced save\<close>

definition setTimeout :: "solver_session \<Rightarrow> nat \<Rightarrow> hook_state \<Rightarrow> nat \<times> hook_state" where
  "setTimeout arg wait st =
     (let h = Suc (next_handle st)
      in (h, st\<lparr>timers := timers st @ [(h, clock st + wait, arg)], next_handle := h\<rparr>))"

definition clearTimeout :: "nat \<Rightarrow> hook_state \<Rightarrow> hook_state" where
  "clearTimeout h st = st\<lparr>timers := filter (\<lambda>t. fst t \<noteq> h) (timers st)\<rparr>"

text \<open>
  The function wrapped by \<open>debounce\<close>: no request for a session whose id is falsy, else one
  \<open>PUT\<close> of the title and the knowledge base. A failing request is caught and logged.
\<close>

definition save_session :: "solver_session \<Rightarrow> hook_state \<Rightarrow> hook_state" where
  "save_session sessionToSave st =
     (if id_s sessionToSave = '''' then st
      else st\<lparr>requests := requests st @
             [Put_session (id_s sessionToSave) (title sessionToSave)
                (knowledge_base sessionToSave)]\<rparr>)"

text \<open>The function \<open>debounce\<close> returns, for \<open>func = save_session\<close>.\<close>

definition debouncedSave :: "nat \<Rightarrow> solver_session \<Rightarrow> hook_state \<Rightarrow> hook_state" where
  "debouncedSave wait arg st =
     (let st1 = (case timeout st of Some h \<Rightarrow> clearTimeout h st | None \<Rightarrow> st);
          (h, st2) = setTimeout arg wait st1
      in st2\<lparr>timeout := Some h\<rparr>)"

definition debounceMs_default :: nat where
  "debounceMs_default = 1000"

text \<open>
  Time passing: the clock moves on by \<open>d\<close> milliseconds and every timer that is due by then
  runs its callback, earliest first.
\<close>

definition advance :: "nat \<Rightarrow> hook_state \<Rightarrow> hook_state" where
  "advance d st =
     (let now = clock st + d;
          due = filter (\<lambda>t. fst (snd t) \<le> now) (timers st);
          pending = filter (\<lambda>t. \<not> fst (snd t) \<le> now) (timers st)
      in foldl (\<lambda>s t. save_session (snd (snd t)) s)
           (st\<lparr>clock := now, timers := pending\<rparr>)
           (sort_key (\<lambda>t. fst (snd t)) due))"

text \<open>A run of calls, each after a pause since the one before.\<close>

fun save_calls :: "nat \<Rightarrow> (nat \<times> solver_session) list \<Rightarrow> hook_state \<Rightarrow> hook_state" where
  "save_calls wait [] st = st"
| "save_calls wait ((pause, arg) # cs) st =
     save_calls wait cs (debouncedSave wait arg (advance pause st))"

section \<open>Initial states and sample data\<close>

text \<open>The states both components start in, and the data the examples below run on.\<close>

definition empty_storage :: "'a local_storage" where
  "empty_storage = \<lparr>item = None, get_throws = False, set_throws = False, remove_throws = False\<rparr>"

definition kp_initial :: kp_state where
  "kp_initial =
     \<lparr>progressMap = Map.empty, localStorage = empty_storage, wsConnectionsRef = [],
      kbsNamesRef = []\<rparr>"

definition hook_initial :: hook_state where
  "hook_initial =
     \<lparr>session = None, lastMessagesRef = None, cache = empty_storage, requests = [],
      clock = 0, timers = [], next_handle = 0, timeout = None\<rparr>"

definition sample_kb :: "string \<Rightarrow> bool \<Rightarrow> kb_info" where
  "sample_kb n ready =
     \<lparr>name = n, is_default = False, raw_documents = 1, images = 0, content_lists = 0,
      rag_initialized = ready\<rparr>"

definition sample_progress :: "string \<Rightarrow> int \<Rightarrow> timestamp \<Rightarrow> progress_info" where
  "sample_progress stg pct ts =
     \<lparr>stage = stg, message = '''', current = 0, total = 0, file_name = None,
      progress_percent = pct, error = None, timestamp = ts\<rparr>"

definition sample_session :: "string \<Rightarrow> solver_session" where
  "sample_session i =
     \<lparr>id_s = i, title = ''Limits'', knowledge_base = ''math101'', messages = [],
      token_stats = \<lparr>model = ''m'', calls = 0, tokens = 0, input_tokens = 0,
                      output_tokens = 0, cost = 0\<rparr>,
      created_at = ''2025-01-01T00:00:00.000Z'', updated_at = ''2025-01-01T00:00:00.000Z'',
      is_active = True, message_count = 0\<rparr>"

definition saved_progress :: "string \<rightharpoonup> progress_info" where
  "saved_progress =
     [''stuck'' \<mapsto> sample_progress ''processing'' 40 (Epoch_ms 0),
      ''done'' \<mapsto> sample_progress ''completed'' 100 (Epoch_ms 0),
      ''bare'' \<mapsto> sample_progress ''extracting'' 10 No_timestamp]"

definition kp_saved :: kp_state where
  "kp_saved = kp_initial\<lparr>localStorage := empty_storage\<lparr>item := Some (Json saved_progress)\<rparr>\<rparr>"

definition hook_active :: hook_state where
  "hook_active = hook_initial\<lparr>session := Some (sample_session ''s1'')\<rparr>"

text \<open>
  The page after its first listing, with \<open>math101\<close> reported not yet initialized or
  initialized, and the socket for it opened by the effect.
\<close>

definition kp_opened :: "bool \<Rightarrow> kp_state" where
  "kp_opened ready = fst (sync_connections [sample_kb ''math101'' ready] False kp_initial)"

definition kp_opened_done :: kp_state where
  "kp_opened_done =
     (kp_opened True)
       \<lparr>progressMap := [''math101'' \<mapsto> sample_progress ''completed'' 100 (Epoch_ms 1000)]\<rparr>"

text \<open>Helpers for stating what the timers and the sockets are up to.\<close>

definition put_of :: "nat \<times> nat \<times> solver_session \<Rightarrow> request list" where
  "put_of t =
     (if id_s (snd (snd t)) = '''' then []
      else [Put_session (id_s (snd (snd t))) (title (snd (snd t)))
              (knowledge_base (snd (snd t)))])"

definition one_pending :: "nat \<Rightarrow> solver_session \<Rightarrow> hook_state \<Rightarrow> bool" where
  "one_pending wait a st \<longleftrightarrow>
     (\<exists>h. timers st = [(h, clock st + wait, a)] \<and> timeout st = Some h)"

definition live :: "(string \<times> web_socket) list \<Rightarrow> string \<Rightarrow> bool" where
  "live c k \<longleftrightarrow> (\<exists>ws. map_of c k = Some ws \<and> readyState ws \<noteq> CLOSED)"

definition registry_named :: "kp_state \<Rightarrow> bool" where
  "registry_named st \<longleftrightarrow> (\<forall>e \<in> set (wsConnectionsRef st). name (captured_kb (snd e)) = fst e)"

section \<open>Properties of the progress map\<close>

text \<open>
  At the handler: when the knowledge base object it was created for is marked initialized, a
  progress message whose stage is neither \<open>completed\<close> nor \<open>error\<close> and whose timestamp is
  absent, or more than five minutes behind the clock at receipt, changes nothing.
\<close>

lemma handler_rejects_stale:
  assumes "rag_initialized kb"
    and "stage d \<noteq> ''completed''" and "stage d \<noteq> ''error''"
    and "timestamp d = No_timestamp \<or> (\<exists>t. timestamp d = Epoch_ms t \<and> now - t > 5 * 60 * 1000)"
  shows "ws_onmessage kb now (Progress_msg (Some d)) st = st"
  using assms by (auto simp: ws_onmessage_def stale_for_ready_def fiveMinutes_def)

lemma restore_progress_loaded:
  assumes "\<not> get_throws (localStorage st)" and "item (localStorage st) = Some (Json saved)"
  shows "progressMap (restore_progress now st) = cleaned_map now saved"
    and "\<not> set_throws (localStorage st) \<Longrightarrow>
         item (localStorage (restore_progress now st)) = Some (Json (cleaned_map now saved))"
  using assms by (auto simp: restore_progress_def getItem_def setItem_def Let_def)

text \<open>
  C3 (sanitize-on-load eviction). When the saved map is read and parses, an entry whose stage
  is not terminal and whose timestamp is more than thirty minutes old is dropped, an entry whose
  stage is \<open>completed\<close> or \<open>error\<close> is kept whatever its age, an entry without a timestamp is
  dropped unless its stage is terminal, and the cleaned map is written back at once (a store
  that refuses the write is the one case where the stored copy stays behind).
\<close>

theorem sanitize_on_load:
  assumes "\<not> get_throws (localStorage st)" and "item (localStorage st) = Some (Json saved)"
  shows "(\<forall>k p t. saved k = Some p \<and> stage p \<noteq> ''completed'' \<and> stage p \<noteq> ''error'' \<and>
            timestamp p = Epoch_ms t \<and> now - t > 30 * 60 * 1000
            \<longrightarrow> progressMap (restore_progress now st) k = None) \<and>
         (\<forall>k p. saved k = Some p \<and> (stage p = ''completed'' \<or> stage p = ''error'')
            \<longrightarrow> progressMap (restore_progress now st) k = Some p) \<and>
         (\<forall>k p. saved k = Some p \<and> timestamp p = No_timestamp \<and>
            stage p \<noteq> ''completed'' \<and> stage p \<noteq> ''error''
            \<longrightarrow> progressMap (restore_progress now st) k = None) \<and>
         (\<not> set_throws (localStorage st)
            \<longrightarrow> item (localStorage (restore_progress now st))
                = Some (Json (progressMap (restore_progress now st))))"
  using restore_progress_loaded [OF assms, of now]
  by (auto simp: cleaned_map_def keep_restored_def thirtyMinutes_def)

text \<open>
  C3 on a saved map with a stuck entry, a completed entry of the same age and an entry
  without timestamp, loaded 31 minutes after their timestamps.
\<close>

theorem sanitize_on_load_witness:
  "\<not> get_throws (localStorage kp_saved) \<and>
   item (localStorage kp_saved) = Some (Json saved_progress) \<and>
   saved_progress ''stuck'' = Some (sample_progress ''processing'' 40 (Epoch_ms 0)) \<and>
   (1860000::int) - 0 > 30 * 60 * 1000 \<and>
   progressMap (restore_progress 1860000 kp_saved) ''stuck'' = None \<and>
   progressMap (restore_progress 1860000 kp_saved) ''done''
     = Some (sample_progress ''completed'' 100 (Epoch_ms 0)) \<and>
   progressMap (restore_progress 1860000 kp_saved) ''bare'' = None \<and>
   \<not> set_throws (localStorage kp_saved) \<and>
   item (localStorage (restore_progress 1860000 kp_saved))
     = Some (Json (progressMap (restore_progress 1860000 kp_saved)))"
proof -
  have h1: "\<not> get_throws (localStorage kp_saved)"
    and h2: "item (localStorage kp_saved) = Some (Json saved_progress)"
    and h3: "\<not> set_throws (localStorage kp_saved)"
    by (simp_all add: kp_saved_def kp_initial_def empty_storage_def)
  have s1: "saved_progress ''stuck'' = Some (sample_progress ''processing'' 40 (Epoch_ms 0))"
    and s2: "saved_progress ''done'' = Some (sample_progress ''completed'' 100 (Epoch_ms 0))"
    and s3: "saved_progress ''bare'' = Some (sample_progress ''extracting'' 10 No_timestamp)"
    by (simp_all add: saved_progress_def)
  have p1: "stage (sample_progress ''processing'' 40 (Epoch_ms 0)) \<noteq> ''completed''"
       "stage (sample_progress ''processing'' 40 (Epoch_ms 0)) \<noteq> ''error''"
       "timestamp (sample_progress ''processing'' 40 (Epoch_ms 0)) = Epoch_ms 0"
    and p2: "stage (sample_progress ''completed'' 100 (Epoch_ms 0)) = ''completed''"
    and p3: "stage (sample_progress ''extracting'' 10 No_timestamp) \<noteq> ''completed''"
       "stage (sample_progress ''extracting'' 10 No_timestamp) \<noteq> ''error''"
       "timestamp (sample_progress ''extracting'' 10 No_timestamp) = No_timestamp"
    by (simp_all add: sample_progress_def)
  note T = sanitize_on_load [OF h1 h2, of 1860000]
  have c1: "progressMap (restore_progress 1860000 kp_saved) ''stuck'' = None"
    using T s1 p1 by auto
  have c2: "progressMap (restore_progress 1860000 kp_saved) ''done''
     = Some (sample_progress ''completed'' 100 (Epoch_ms 0))"
    using T s2 p2 by blast
  have c3: "progressMap (restore_progress 1860000 kp_saved) ''bare'' = None"
    using T s3 p3 by blast
  have c4: "item (localStorage (restore_progress 1860000 kp_saved))
     = Some (Json (progressMap (restore_progress 1860000 kp_saved)))"
    using T h3 by blast
  show ?thesis using h1 h2 h3 s1 c1 c2 c3 c4 by simp
qed

lemma store_progress_map:
  "progressMap (store_progress k d st) = (progressMap st)(k \<mapsto> d)"
  by (simp add: store_progress_def setItem_def Let_def)

lemma store_progress_item:
  "\<not> set_throws (localStorage st) \<Longrightarrow>
   item (localStorage (store_progress k d st)) = Some (Json ((progressMap st)(k \<mapsto> d)))"
  by (simp add: store_progress_def setItem_def Let_def)

lemma stale_for_ready_iff:
  "stale_for_ready now d \<longleftrightarrow>
     timestamp d = No_timestamp \<or> timestamp d = Invalid_date \<or>
     (\<exists>t. timestamp d = Epoch_ms t \<and> (t = 0 \<or> now - t > 5 * 60 * 1000))"
  by (cases "timestamp d") (auto simp: stale_for_ready_def fiveMinutes_def)

lemma ws_onmessage_progress:
  "ws_onmessage kb now (Progress_msg (Some d)) st =
     (if rag_initialized kb \<and> stage d \<noteq> ''completed'' \<and> stage d \<noteq> ''error'' \<and>
         stale_for_ready now d
      then st else store_progress (name kb) d st)"
  by (simp add: ws_onmessage_def)

lemma ws_onmessage_other:
  "(\<And>d. ev \<noteq> Progress_msg (Some d)) \<Longrightarrow> ws_onmessage kb now ev st = st"
  by (cases ev) (auto simp: ws_onmessage_def split: option.splits)

text \<open>
  C1 as stated fails: on a knowledge base that is not yet reported initialized, a
  \<open>completed\<close> record is stored and the \<open>processing_file\<close> message after it replaces it.
\<close>

theorem terminal_stickiness_counterexample:
  "progressMap
     (deliver_all (sample_kb ''math101'' False)
        [(1000, Progress_msg (Some (sample_progress ''completed'' 100 (Epoch_ms 1000))))]
        kp_initial) ''math101''
     = Some (sample_progress ''completed'' 100 (Epoch_ms 1000)) \<and>
   progressMap
     (deliver_all (sample_kb ''math101'' False)
        [(1000, Progress_msg (Some (sample_progress ''completed'' 100 (Epoch_ms 1000)))),
         (2000, Progress_msg (Some (sample_progress ''processing_file'' 40 (Epoch_ms 900))))]
        kp_initial) ''math101''
     = Some (sample_progress ''processing_file'' 40 (Epoch_ms 900)) \<and>
   stage (sample_progress ''processing_file'' 40 (Epoch_ms 900)) \<noteq> ''completed'' \<and>
   stage (sample_progress ''processing_file'' 40 (Epoch_ms 900)) \<noteq> ''error''"
  by (simp add: ws_onmessage_progress store_progress_map sample_kb_def sample_progress_def)

lemma sticky_step:
  assumes "rag_initialized kb"
    and "progressMap st (name kb) = Some c" and "stage c = ''completed'' \<or> stage c = ''error''"
    and "\<And>d. ev = Progress_msg (Some d) \<Longrightarrow> stage d \<noteq> ''completed'' \<Longrightarrow> stage d \<noteq> ''error''
           \<Longrightarrow> timestamp d = No_timestamp \<or> (\<exists>t. timestamp d = Epoch_ms t \<and> now - t > 5 * 60 * 1000)"
  shows "\<exists>c'. progressMap (ws_onmessage kb now ev st) (name kb) = Some c' \<and>
              (stage c' = ''completed'' \<or> stage c' = ''error'')"
proof (cases "\<exists>d. ev = Progress_msg (Some d)")
  case False
  then have "ws_onmessage kb now ev st = st" by (intro ws_onmessage_other) blast
  with assms(2,3) show ?thesis by simp
next
  case True
  then obtain d where ev: "ev = Progress_msg (Some d)" by blast
  show ?thesis
  proof (cases "stage d = ''completed'' \<or> stage d = ''error''")
    case True
    then show ?thesis
      using assms(2,3) by (auto simp: ev ws_onmessage_progress store_progress_map)
  next
    case False
    with assms(4) [OF ev] have "stale_for_ready now d"
      by (auto simp: stale_for_ready_iff)
    with False assms(1) have "ws_onmessage kb now ev st = st"
      by (simp add: ev ws_onmessage_progress)
    with assms(2,3) show ?thesis by simp
  qed
qed

lemma sticky_run:
  assumes "rag_initialized kb"
  shows "progressMap st (name kb) = Some c \<Longrightarrow> stage c = ''completed'' \<or> stage c = ''error'' \<Longrightarrow>
         (\<forall>(now, ev) \<in> set evs. \<forall>d. ev = Progress_msg (Some d) \<and>
              stage d \<noteq> ''completed'' \<and> stage d \<noteq> ''error''
              \<longrightarrow> timestamp d = No_timestamp \<or>
                  (\<exists>t. timestamp d = Epoch_ms t \<and> now - t > 5 * 60 * 1000)) \<Longrightarrow>
         \<exists>c'. progressMap (deliver_all kb evs st) (name kb) = Some c' \<and>
              (stage c' = ''completed'' \<or> stage c' = ''error'')"
proof (induction evs arbitrary: st c)
  case Nil
  then show ?case by simp
next
  case (Cons e evs)
  obtain now ev where e: "e = (now, ev)" by (cases e)
  have "\<exists>c'. progressMap (ws_onmessage kb now ev st) (name kb) = Some c' \<and>
              (stage c' = ''completed'' \<or> stage c' = ''error'')"
    using Cons.prems assms by (intro sticky_step [where c = c]) (auto simp: e)
  then obtain c' where c': "progressMap (ws_onmessage kb now ev st) (name kb) = Some c'"
      "stage c' = ''completed'' \<or> stage c' = ''error''" by blast
  have "\<exists>c''. progressMap (deliver_all kb evs (ws_onmessage kb now ev st)) (name kb) = Some c'' \<and>
              (stage c'' = ''completed'' \<or> stage c'' = ''error'')"
    using Cons.prems(3) by (intro Cons.IH [OF c']) auto
  then show ?case by (simp add: e)
qed

lemma ws_onmessage_refs:
  "wsConnectionsRef (ws_onmessage kb now ev st) = wsConnectionsRef st"
  "kbsNamesRef (ws_onmessage kb now ev st) = kbsNamesRef st"
  by (cases ev; auto simp: ws_onmessage_def store_progress_def setItem_def Let_def
      split: option.splits)+

lemma socket_onmessage_captured:
  "map_of (wsConnectionsRef st) k = Some ws \<Longrightarrow>
   socket_onmessage k now ev st = ws_onmessage (captured_kb ws) now ev st"
  by (simp add: socket_onmessage_def)

lemma socket_deliver_all_captured:
  "map_of (wsConnectionsRef st) k = Some ws \<Longrightarrow>
   socket_deliver_all k evs st = deliver_all (captured_kb ws) evs st"
proof (induction evs arbitrary: st)
  case Nil
  then show ?case by simp
next
  case (Cons e evs)
  obtain now ev where e: "e = (now, ev)" by (cases e)
  have "map_of (wsConnectionsRef (ws_onmessage (captured_kb ws) now ev st)) k = Some ws"
    using Cons.prems by (simp add: ws_onmessage_refs)
  from Cons.IH [OF this] Cons.prems show ?case
    by (simp add: e socket_onmessage_captured)
qed

lemma update_member:
  "e \<in> set (AList.update k v al) \<Longrightarrow> e = (k, v) \<or> e \<in> set al"
  by (induction al) (auto split: if_splits)

lemma registry_named_open:
  assumes "\<forall>e \<in> set (fst acc). name (captured_kb (snd e)) = fst e"
  shows "\<forall>e \<in> set (fst (foldl open_missing acc kbs)). name (captured_kb (snd e)) = fst e"
  using assms
proof (induction kbs arbitrary: acc)
  case Nil
  then show ?case by simp
next
  case (Cons kb kbs)
  have "\<forall>e \<in> set (fst (open_missing acc kb)). name (captured_kb (snd e)) = fst e"
    using Cons.prems
    by (auto simp: open_missing_def new_WebSocket_def split: option.splits
        dest!: update_member)
  from Cons.IH [OF this] show ?case by simp
qed

lemma registry_named_initial: "registry_named kp_initial"
  by (simp add: registry_named_def kp_initial_def)

lemma registry_named_sync:
  assumes "registry_named st"
  shows "registry_named (fst (sync_connections kbs loading st))"
proof -
  have "\<forall>e \<in> set (fst (foldl open_missing (filter (tracked kbs) (wsConnectionsRef st), []) kbs)).
          name (captured_kb (snd e)) = fst e"
    using assms by (intro registry_named_open) (simp add: registry_named_def)
  with assms show ?thesis
    by (auto simp: sync_connections_def registry_named_def Let_def)
qed

lemma registry_named_onmessage:
  "registry_named st \<Longrightarrow> registry_named (socket_onmessage k now ev st)"
  by (simp add: registry_named_def socket_onmessage_def ws_onmessage_refs split: option.splits)

lemma registry_named_socket:
  assumes "registry_named st" and "map_of (wsConnectionsRef st) k = Some ws"
  shows "name (captured_kb ws) = k"
  using assms by (force simp: registry_named_def dest: map_of_SomeD)

lemma kp_opened_eval:
  "kp_opened ready =
     kp_initial\<lparr>wsConnectionsRef := [(''math101'', new_WebSocket (sample_kb ''math101'' ready))],
                kbsNamesRef := [''math101'']\<rparr>"
  by (simp add: kp_opened_def sync_connections_def kp_initial_def sample_kb_def
      open_missing_def tracked_def Let_def)

lemma kp_opened_facts:
  "registry_named (kp_opened ready)"
  "map_of (wsConnectionsRef (kp_opened ready)) ''math101''
     = Some (new_WebSocket (sample_kb ''math101'' ready))"
  "progressMap (kp_opened ready) ''math101'' = None"
  "registry_named kp_opened_done"
  "map_of (wsConnectionsRef kp_opened_done) ''math101''
     = Some (new_WebSocket (sample_kb ''math101'' True))"
  "progressMap kp_opened_done ''math101''
     = Some (sample_progress ''completed'' 100 (Epoch_ms 1000))"
  by (simp_all add: kp_opened_done_def kp_opened_eval registry_named_def kp_initial_def
      new_WebSocket_def sample_kb_def)

text \<open>
  C1, amended (terminal stickiness). The handler compares the incoming message with the
  clock and the ready flag only, never with the stored record. Take a knowledge base whose
  socket holds the ready flag that the list reports for it. If it is reported ready, a stored
  terminal record survives every run of messages on that socket whose non-terminal messages
  carry no timestamp or one more than five minutes old. And a message is stored, over whatever
  is there, when the knowledge base is reported not ready and its socket holds that flag, or
  when the message's timestamp is later than the epoch and at most five minutes old.
\<close>

theorem terminal_sticky_against_stale:
  "(registry_named st \<and> map_of (wsConnectionsRef st) k = Some ws \<and>
    name listed = k \<and> rag_initialized listed \<and>
    rag_initialized (captured_kb ws) = rag_initialized listed \<and>
    progressMap st k = Some c \<and> (stage c = ''completed'' \<or> stage c = ''error'') \<and>
    (\<forall>(now, ev) \<in> set evs. \<forall>d. ev = Progress_msg (Some d) \<and>
        stage d \<noteq> ''completed'' \<and> stage d \<noteq> ''error''
        \<longrightarrow> timestamp d = No_timestamp \<or>
            (\<exists>t. timestamp d = Epoch_ms t \<and> now - t > 5 * 60 * 1000))
    \<longrightarrow> (\<exists>c'. progressMap (socket_deliver_all k evs st) k = Some c' \<and>
              (stage c' = ''completed'' \<or> stage c' = ''error''))) \<and>
   (registry_named st \<and> map_of (wsConnectionsRef st) k = Some ws \<and>
    (name listed = k \<and> \<not> rag_initialized listed \<and>
     rag_initialized (captured_kb ws) = rag_initialized listed \<or>
     (\<exists>t. timestamp d = Epoch_ms t \<and> t \<noteq> 0 \<and> now' - t \<le> 5 * 60 * 1000))
    \<longrightarrow> progressMap (socket_onmessage k now' (Progress_msg (Some d)) st) k = Some d)"
proof (intro conjI impI)
  assume a: "registry_named st \<and> map_of (wsConnectionsRef st) k = Some ws \<and>
    name listed = k \<and> rag_initialized listed \<and>
    rag_initialized (captured_kb ws) = rag_initialized listed \<and>
    progressMap st k = Some c \<and> (stage c = ''completed'' \<or> stage c = ''error'') \<and>
    (\<forall>(now, ev) \<in> set evs. \<forall>d. ev = Progress_msg (Some d) \<and>
        stage d \<noteq> ''completed'' \<and> stage d \<noteq> ''error''
        \<longrightarrow> timestamp d = No_timestamp \<or>
            (\<exists>t. timestamp d = Epoch_ms t \<and> now - t > 5 * 60 * 1000))"
  then have nm: "name (captured_kb ws) = k" by (blast intro: registry_named_socket)
  have "\<exists>c'. progressMap (deliver_all (captured_kb ws) evs st) (name (captured_kb ws)) = Some c' \<and>
              (stage c' = ''completed'' \<or> stage c' = ''error'')"
    using a nm by (intro sticky_run [where c = c]) auto
  then show "\<exists>c'. progressMap (socket_deliver_all k evs st) k = Some c' \<and>
              (stage c' = ''completed'' \<or> stage c' = ''error'')"
    using a nm by (simp add: socket_deliver_all_captured)
next
  assume b: "registry_named st \<and> map_of (wsConnectionsRef st) k = Some ws \<and>
    (name listed = k \<and> \<not> rag_initialized listed \<and>
     rag_initialized (captured_kb ws) = rag_initialized listed \<or>
     (\<exists>t. timestamp d = Epoch_ms t \<and> t \<noteq> 0 \<and> now' - t \<le> 5 * 60 * 1000))"
  then have nm: "name (captured_kb ws) = k" by (blast intro: registry_named_socket)
  from b nm show "progressMap (socket_onmessage k now' (Progress_msg (Some d)) st) k = Some d"
    by (auto simp: socket_onmessage_captured ws_onmessage_progress store_progress_map
        stale_for_ready_iff)
qed

text \<open>
  Both halves of the amended C1 at \<open>math101\<close>, on the socket opened from the list: the
  stale message leaves \<open>completed\<close> in place when the knowledge base was listed ready and is
  stored when it was listed not ready.
\<close>

theorem terminal_sticky_against_stale_witness:
  "registry_named kp_opened_done \<and>
   map_of (wsConnectionsRef kp_opened_done) ''math101''
     = Some (new_WebSocket (sample_kb ''math101'' True)) \<and>
   rag_initialized (sample_kb ''math101'' True) \<and>
   progressMap kp_opened_done ''math101''
     = Some (sample_progress ''completed'' 100 (Epoch_ms 1000)) \<and>
   (400000::int) - 1000 > 5 * 60 * 1000 \<and>
   (\<exists>c'. progressMap
           (socket_deliver_all ''math101''
              [(400000, Progress_msg (Some (sample_progress ''processing_file'' 40 (Epoch_ms 1000))))]
              kp_opened_done) ''math101'' = Some c' \<and>
         (stage c' = ''completed'' \<or> stage c' = ''error'')) \<and>
   registry_named (kp_opened False) \<and>
   map_of (wsConnectionsRef (kp_opened False)) ''math101''
     = Some (new_WebSocket (sample_kb ''math101'' False)) \<and>
   \<not> rag_initialized (sample_kb ''math101'' False) \<and>
   progressMap
     (socket_onmessage ''math101'' 400000
        (Progress_msg (Some (sample_progress ''processing_file'' 40 (Epoch_ms 1000))))
        (kp_opened False)) ''math101''
     = Some (sample_progress ''processing_file'' 40 (Epoch_ms 1000))"
proof -
  let ?d = "sample_progress ''processing_file'' 40 (Epoch_ms 1000)"
  let ?c = "sample_progress ''completed'' 100 (Epoch_ms 1000)"
  let ?T = "sample_kb ''math101'' True"
  let ?F = "sample_kb ''math101'' False"
  note f = kp_opened_facts
  have h1: "rag_initialized ?T" "name ?T = ''math101''"
      "rag_initialized (captured_kb (new_WebSocket ?T)) = rag_initialized ?T"
    and h2: "\<not> rag_initialized ?F" "name ?F = ''math101''"
      "rag_initialized (captured_kb (new_WebSocket ?F)) = rag_initialized ?F"
    and h3: "stage ?c = ''completed''"
    and h4: "(400000::int) - 1000 > 5 * 60 * 1000"
    and h5: "timestamp ?d = Epoch_ms 1000"
    by (simp_all add: sample_kb_def sample_progress_def new_WebSocket_def)
  have h7: "\<forall>(now, ev) \<in> set [(400000::int, Progress_msg (Some ?d))].
             \<forall>d. ev = Progress_msg (Some d) \<and> stage d \<noteq> ''completed'' \<and> stage d \<noteq> ''error''
               \<longrightarrow> timestamp d = No_timestamp \<or>
                   (\<exists>t. timestamp d = Epoch_ms t \<and> now - t > 5 * 60 * 1000)"
    using h4 h5 by simp
  have a: "\<exists>c'. progressMap
           (socket_deliver_all ''math101'' [(400000, Progress_msg (Some ?d))] kp_opened_done)
           ''math101'' = Some c' \<and>
         (stage c' = ''completed'' \<or> stage c' = ''error'')"
    using terminal_sticky_against_stale
      [of kp_opened_done "''math101''" "new_WebSocket ?T" ?T ?c
        "[(400000, Progress_msg (Some ?d))]"]
      f(4,5,6) h1 h3 h7 by blast
  have b: "progressMap
     (socket_onmessage ''math101'' 400000 (Progress_msg (Some ?d)) (kp_opened False))
     ''math101'' = Some ?d"
    using terminal_sticky_against_stale
      [of "kp_opened False" "''math101''" "new_WebSocket ?F" ?F]
      f(1,2) h2 by blast
  show ?thesis using f h1 h2 h4 a b by blast
qed

text \<open>
  C5 as stated fails: a message received when the clock reads 1000 and carrying the
  timestamp 5 is stored with the timestamp 5.
\<close>

theorem receipt_time_not_stamped_counterexample:
  "progressMap
     (ws_onmessage (sample_kb ''math101'' False) 1000
        (Progress_msg (Some (sample_progress ''processing'' 40 (Epoch_ms 5)))) kp_initial)
     ''math101''
     = Some (sample_progress ''processing'' 40 (Epoch_ms 5)) \<and>
   timestamp (sample_progress ''processing'' 40 (Epoch_ms 5)) \<noteq> Epoch_ms 1000"
  by (simp add: ws_onmessage_progress store_progress_map sample_kb_def sample_progress_def)

text \<open>
  C5, amended. A progress message that passes the staleness test is stored as it came: the
  entry of the knowledge base becomes the payload's \<open>data\<close>, timestamp included, no other
  entry changes, and the whole updated map is written to the store (unless the store refuses
  the write).
\<close>

theorem accepted_payload_stored_verbatim:
  assumes "\<not> rag_initialized kb \<or> stage d = ''completed'' \<or> stage d = ''error'' \<or>
           (\<exists>t. timestamp d = Epoch_ms t \<and> t \<noteq> 0 \<and> now - t \<le> 5 * 60 * 1000)"
  shows "progressMap (ws_onmessage kb now (Progress_msg (Some d)) st)
           = (progressMap st)(name kb \<mapsto> d) \<and>
         (\<exists>p. progressMap (ws_onmessage kb now (Progress_msg (Some d)) st) (name kb) = Some p \<and>
              timestamp p = timestamp d) \<and>
         (\<not> set_throws (localStorage st) \<longrightarrow>
            item (localStorage (ws_onmessage kb now (Progress_msg (Some d)) st))
              = Some (Json (progressMap (ws_onmessage kb now (Progress_msg (Some d)) st))))"
proof -
  have "\<not> (rag_initialized kb \<and> stage d \<noteq> ''completed'' \<and> stage d \<noteq> ''error'' \<and>
           stale_for_ready now d)"
    using assms by (auto simp: stale_for_ready_iff)
  then have "ws_onmessage kb now (Progress_msg (Some d)) st = store_progress (name kb) d st"
    by (auto simp: ws_onmessage_progress)
  then show ?thesis
    by (simp add: store_progress_map store_progress_item)
qed

text \<open>
  The amended C5 on the first message for \<open>math101\<close>.
\<close>

theorem accepted_payload_stored_verbatim_witness:
  "\<not> rag_initialized (sample_kb ''math101'' False) \<and>
   \<not> set_throws (localStorage kp_initial) \<and>
   (\<exists>p. progressMap
          (ws_onmessage (sample_kb ''math101'' False) 1000
             (Progress_msg (Some (sample_progress ''processing'' 40 (Epoch_ms 5)))) kp_initial)
          (name (sample_kb ''math101'' False)) = Some p \<and>
        timestamp p = timestamp (sample_progress ''processing'' 40 (Epoch_ms 5))) \<and>
   item (localStorage
          (ws_onmessage (sample_kb ''math101'' False) 1000
             (Progress_msg (Some (sample_progress ''processing'' 40 (Epoch_ms 5)))) kp_initial))
     = Some (Json (progressMap
          (ws_onmessage (sample_kb ''math101'' False) 1000
             (Progress_msg (Some (sample_progress ''processing'' 40 (Epoch_ms 5)))) kp_initial)))"
proof -
  have h1: "\<not> rag_initialized (sample_kb ''math101'' False)"
    and h2: "\<not> set_throws (localStorage kp_initial)"
    by (simp_all add: sample_kb_def kp_initial_def empty_storage_def)
  show ?thesis
    using accepted_payload_stored_verbatim
      [of "sample_kb ''math101'' False" "sample_progress ''processing'' 40 (Epoch_ms 5)" 1000
        kp_initial] h1 h2
    by blast
qed

text \<open>
  C6 as stated fails: with no record stored, a \<open>processing\<close> message without timestamp for
  a ready knowledge base is dropped and the record stays absent.
\<close>

theorem absent_record_counterexample:
  "progressMap kp_initial ''math101'' = None \<and>
   ws_onmessage (sample_kb ''math101'' True) 1000
     (Progress_msg (Some (sample_progress ''processing'' 40 No_timestamp))) kp_initial
     = kp_initial \<and>
   progressMap
     (ws_onmessage (sample_kb ''math101'' True) 1000
        (Progress_msg (Some (sample_progress ''processing'' 40 No_timestamp))) kp_initial)
     ''math101'' = None"
  by (simp add: ws_onmessage_progress stale_for_ready_iff sample_kb_def sample_progress_def
      kp_initial_def)

text \<open>
  C6, amended (reconciliation rule 1). Take a knowledge base without a stored record whose
  socket holds the ready flag that the list reports for it. A progress message is stored
  exactly when it is not the case that the knowledge base is reported ready, the stage is
  non-terminal and the timestamp is absent, unreadable, the epoch itself or more than five
  minutes old; a message that is not stored leaves the state untouched.
\<close>

theorem absent_record_accepted_unless_stale:
  assumes "progressMap st k = None"
    and "registry_named st" and "map_of (wsConnectionsRef st) k = Some ws"
    and "name listed = k" and "rag_initialized (captured_kb ws) = rag_initialized listed"
  shows "(progressMap (socket_onmessage k now (Progress_msg (Some d)) st) k = Some d
          \<longleftrightarrow> \<not> (rag_initialized listed \<and> stage d \<noteq> ''completed'' \<and> stage d \<noteq> ''error'' \<and>
                  (timestamp d = No_timestamp \<or> timestamp d = Invalid_date \<or>
                   (\<exists>t. timestamp d = Epoch_ms t \<and> (t = 0 \<or> now - t > 5 * 60 * 1000))))) \<and>
         (progressMap (socket_onmessage k now (Progress_msg (Some d)) st) k \<noteq> Some d
          \<longrightarrow> socket_onmessage k now (Progress_msg (Some d)) st = st)"
proof -
  have nm: "name (captured_kb ws) = k"
    using assms(2,3) by (rule registry_named_socket)
  show ?thesis
    using assms(1,3,5) nm
    by (auto simp: socket_onmessage_captured ws_onmessage_progress store_progress_map
        stale_for_ready_iff)
qed

text \<open>
  The amended C6 on a \<open>completed\<close> message without timestamp for a knowledge base listed
  ready.
\<close>

theorem absent_record_accepted_unless_stale_witness:
  "progressMap (kp_opened True) ''math101'' = None \<and>
   registry_named (kp_opened True) \<and>
   map_of (wsConnectionsRef (kp_opened True)) ''math101''
     = Some (new_WebSocket (sample_kb ''math101'' True)) \<and>
   name (sample_kb ''math101'' True) = ''math101'' \<and>
   rag_initialized (captured_kb (new_WebSocket (sample_kb ''math101'' True)))
     = rag_initialized (sample_kb ''math101'' True) \<and>
   stage (sample_progress ''completed'' 100 No_timestamp) = ''completed'' \<and>
   progressMap
     (socket_onmessage ''math101'' 1000
        (Progress_msg (Some (sample_progress ''completed'' 100 No_timestamp))) (kp_opened True))
     ''math101'' = Some (sample_progress ''completed'' 100 No_timestamp)"
proof -
  let ?T = "sample_kb ''math101'' True"
  note f = kp_opened_facts(1,2,3) [of True]
  have h1: "name ?T = ''math101''"
    and h2: "rag_initialized (captured_kb (new_WebSocket ?T)) = rag_initialized ?T"
    and h3: "stage (sample_progress ''completed'' 100 No_timestamp) = ''completed''"
    by (simp_all add: sample_kb_def sample_progress_def new_WebSocket_def)
  show ?thesis
    using absent_record_accepted_unless_stale [OF f(3) f(1) f(2) h1 h2,
        of 1000 "sample_progress ''completed'' 100 No_timestamp"] f h1 h2 h3
    by blast
qed

text \<open>
  C2 (stale-after-ready suppression) does not hold of the page. The socket for \<open>math101\<close>
  is opened while the list reports it not initialized. A later list reports it initialized;
  the names being the same, the effect returns early and the socket keeps the object it
  captured. A \<open>processing\<close> message without timestamp that arrives then is stored, although
  the source's comments say that the early return updates the statistics in the existing
  connections' context and that a ready knowledge base ignores stale in-progress updates.
\<close>

theorem stale_accepted_after_refresh:
  "rag_initialized (sample_kb ''math101'' True) \<and>
   sync_connections [sample_kb ''math101'' True] False (kp_opened False) = (kp_opened False, []) \<and>
   stage (sample_progress ''processing'' 40 No_timestamp) \<noteq> ''completed'' \<and>
   stage (sample_progress ''processing'' 40 No_timestamp) \<noteq> ''error'' \<and>
   timestamp (sample_progress ''processing'' 40 No_timestamp) = No_timestamp \<and>
   progressMap (kp_opened False) ''math101'' = None \<and>
   progressMap
     (socket_onmessage ''math101'' 400000
        (Progress_msg (Some (sample_progress ''processing'' 40 No_timestamp))) (kp_opened False))
     ''math101'' = Some (sample_progress ''processing'' 40 No_timestamp)"
  by (simp add: kp_opened_eval sync_connections_def socket_onmessage_def ws_onmessage_progress
      store_progress_map kp_initial_def sample_kb_def sample_progress_def new_WebSocket_def
      Let_def)

section \<open>Properties of the socket registry\<close>

lemma open_missing_live_self: "live (fst (open_missing acc kb)) (name kb)"
  by (auto simp: open_missing_def live_def update_conv' new_WebSocket_def split: option.splits)

lemma open_missing_live_keep: "live (fst acc) k \<Longrightarrow> live (fst (open_missing acc kb)) k"
  by (auto simp: open_missing_def live_def update_conv' new_WebSocket_def split: option.splits)

lemma foldl_open_live_keep:
  "live (fst acc) k \<Longrightarrow> live (fst (foldl open_missing acc kbs)) k"
  by (induction kbs arbitrary: acc) (simp_all add: open_missing_live_keep)

lemma foldl_open_live:
  "kb \<in> set kbs \<Longrightarrow> live (fst (foldl open_missing acc kbs)) (name kb)"
proof (induction kbs arbitrary: acc)
  case Nil
  then show ?case by simp
next
  case (Cons x kbs)
  show ?case
  proof (cases "kb = x")
    case True
    then show ?thesis
      by (simp add: foldl_open_live_keep open_missing_live_self)
  next
    case False
    with Cons show ?thesis by simp
  qed
qed

lemma open_missing_idle: "live (fst acc) (name kb) \<Longrightarrow> open_missing acc kb = acc"
  by (auto simp: open_missing_def live_def)

lemma foldl_open_idle:
  "\<forall>kb \<in> set kbs. live (fst acc) (name kb) \<Longrightarrow> foldl open_missing acc kbs = acc"
  by (induction kbs arbitrary: acc) (simp_all add: open_missing_idle)

lemma open_missing_keys:
  "fst ` set (fst (open_missing acc kb)) = insert (name kb) (fst ` set (fst acc))"
proof -
  have "set (map fst (AList.update k v al)) = insert k (set (map fst al))" for k v
    and al :: "(string \<times> web_socket) list"
    by (auto simp: update_keys)
  then have upd: "fst ` set (AList.update k v al) = insert k (fst ` set al)" for k v
    and al :: "(string \<times> web_socket) list"
    by simp
  have key: "map_of al k = Some v \<Longrightarrow> k \<in> fst ` set al" for k v
    and al :: "(string \<times> web_socket) list"
    by (force dest: map_of_SomeD)
  show ?thesis
    by (auto simp: open_missing_def upd split: option.splits dest: key)
qed

lemma foldl_open_keys:
  "fst ` set (fst (foldl open_missing acc kbs)) = fst ` set (fst acc) \<union> name ` set kbs"
  by (induction kbs arbitrary: acc) (auto simp: open_missing_keys)

lemma filter_tracked_all:
  assumes "fst ` set c \<subseteq> name ` set kbs"
  shows "filter (tracked kbs) c = c" and "filter (\<lambda>e. \<not> tracked kbs e) c = []"
  using assms by (auto simp: tracked_def filter_id_conv filter_empty_conv)

lemma sort_mset_cong:
  fixes xs ys :: "string list"
  assumes "mset xs = mset ys"
  shows "sort xs = sort ys"
  using assms by (intro properties_for_sort) simp_all

lemma sync_loading: "sync_connections kbs True st = (st, [])"
  by (simp add: sync_connections_def)

lemma sync_skip:
  assumes "join_comma (sort (map name kbs)) = join_comma (sort (kbsNamesRef st))"
    and "join_comma (sort (map name kbs)) \<noteq> ''''" and "wsConnectionsRef st \<noteq> []"
  shows "sync_connections kbs False st = (st, [])"
  using assms by (simp add: sync_connections_def)

lemma sync_empty:
  assumes "\<not> (join_comma (sort (map name [])) = join_comma (sort (kbsNamesRef st)) \<and>
              join_comma (sort (map name [])) \<noteq> '''' \<and> wsConnectionsRef st \<noteq> [])"
  shows "fst (sync_connections [] False st) = st\<lparr>wsConnectionsRef := [], kbsNamesRef := []\<rparr>"
  by (simp add: sync_connections_def)

lemma sync_reconcile:
  assumes "\<not> (join_comma (sort (map name kbs)) = join_comma (sort (kbsNamesRef st)) \<and>
              join_comma (sort (map name kbs)) \<noteq> '''' \<and> wsConnectionsRef st \<noteq> [])"
    and "kbs \<noteq> []"
  shows "sync_connections kbs False st =
           (st\<lparr>wsConnectionsRef :=
                  fst (foldl open_missing (filter (tracked kbs) (wsConnectionsRef st), []) kbs),
               kbsNamesRef := map name kbs\<rparr>,
            concat (map close_if_live (filter (\<lambda>e. \<not> tracked kbs e) (wsConnectionsRef st))) @
            snd (foldl open_missing (filter (tracked kbs) (wsConnectionsRef st), []) kbs))"
  using assms by (auto simp: sync_connections_def Let_def)

lemma sync_settled:
  assumes "kbs \<noteq> []" and "kbsNamesRef st = map name kbs"
    and "fst ` set (wsConnectionsRef st) \<subseteq> name ` set kbs"
    and "\<forall>kb \<in> set kbs. live (wsConnectionsRef st) (name kb)"
  shows "sync_connections kbs False st = (st, [])"
proof (cases "join_comma (sort (map name kbs)) \<noteq> '''' \<and> wsConnectionsRef st \<noteq> []")
  case True
  then show ?thesis using assms(2) by (intro sync_skip) simp_all
next
  case False
  then have ns: "\<not> (join_comma (sort (map name kbs)) = join_comma (sort (kbsNamesRef st)) \<and>
              join_comma (sort (map name kbs)) \<noteq> '''' \<and> wsConnectionsRef st \<noteq> [])"
    by blast
  have idle: "foldl open_missing (wsConnectionsRef st, []) kbs = (wsConnectionsRef st, [])"
    using assms(4) by (intro foldl_open_idle) simp
  show ?thesis
    using assms(2)
    by (simp add: sync_reconcile [OF ns assms(1)] filter_tracked_all [OF assms(3)] idle)
qed

lemma sync_twice:
  "sync_connections kbs loading (fst (sync_connections kbs loading st))
     = (fst (sync_connections kbs loading st), [])"
proof (cases loading)
  case True
  then show ?thesis by (simp add: sync_loading)
next
  case False
  show ?thesis
  proof (cases "join_comma (sort (map name kbs)) = join_comma (sort (kbsNamesRef st)) \<and>
              join_comma (sort (map name kbs)) \<noteq> '''' \<and> wsConnectionsRef st \<noteq> []")
    case True
    then have "sync_connections kbs False st = (st, [])" by (intro sync_skip) blast+
    then show ?thesis using False by simp
  next
    case ns: False
    show ?thesis
    proof (cases "kbs = []")
      case True
      show ?thesis
        using False ns unfolding True
        by (simp add: sync_empty) (simp add: sync_connections_def)
    next
      case ne: False
      let ?c = "fst (foldl open_missing (filter (tracked kbs) (wsConnectionsRef st), []) kbs)"
      let ?st' = "st\<lparr>wsConnectionsRef := ?c, kbsNamesRef := map name kbs\<rparr>"
      have st': "fst (sync_connections kbs False st) = ?st'"
        by (simp add: sync_reconcile [OF ns ne])
      have keys: "fst ` set ?c \<subseteq> name ` set kbs"
        by (auto simp: foldl_open_keys tracked_def)
      have alive: "\<forall>kb \<in> set kbs. live ?c (name kb)"
        by (simp add: foldl_open_live)
      have "sync_connections kbs False ?st' = (?st', [])"
        using keys alive by (intro sync_settled [OF ne]) simp_all
      then show ?thesis using False st' by simp
    qed
  qed
qed

text \<open>
  The early return of the effect: loading over, the names the previous names up to order,
  their sorted comma-joined string not empty, and a connection in the registry.
\<close>

lemma sync_skipped_when_unchanged:
  assumes "mset (map name kbs) = mset (kbsNamesRef st)"
    and "join_comma (sort (map name kbs)) \<noteq> ''''" and "wsConnectionsRef st \<noteq> []"
  shows "sync_connections kbs False st = (st, [])"
proof -
  have "sort (map name kbs) = sort (kbsNamesRef st)"
    using assms(1) by (rule sort_mset_cong)
  with assms(2,3) show ?thesis by (intro sync_skip) simp_all
qed


section \<open>Properties of the solver session hook\<close>



text \<open>
  C10. Without an active session \<open>addMessage\<close> returns \<open>null\<close> and leaves everything as it
  was: no request is sent, and the session state and the cached copy are unchanged.
\<close>

theorem addMessage_without_session:
  assumes "session st = None"
  shows "addMessage r c outputDir now_iso resp st = (None, st)"
  using assms by (simp add: addMessage_def)

text \<open>
  C10 on the hook's initial state.
\<close>

theorem addMessage_without_session_witness:
  "session hook_initial = None \<and>
   addMessage User ''What is a limit?'' None ''2025-01-01T00:00:01.000Z'' Fetch_rejected
     hook_initial = (None, hook_initial)"
proof -
  have h: "session hook_initial = None" by (simp add: hook_initial_def)
  show ?thesis
    using addMessage_without_session [OF h, of User "''What is a limit?''" None
        "''2025-01-01T00:00:01.000Z''" Fetch_rejected] h by simp
qed

lemma saveToCache_fields:
  "session (saveToCache v st) = session st"
  "requests (saveToCache v st) = requests st"
  "\<not> set_throws (cache st) \<Longrightarrow> item (cache (saveToCache v st)) = Some (Json v)"
  "set_throws (cache (saveToCache v st)) = set_throws (cache st)"
  by (simp_all add: saveToCache_def setItem_def)

text \<open>
  C7 (offline append fallback). With an active session, when the append request fails (the
  request is rejected, the status is not ok, or the body is unusable), the session returned
  and kept in state is the old one with one message appended, carrying the given role and
  content and the local timestamp, and with \<open>message_count\<close> one higher; the same session is
  written to the cache (unless the store refuses the write).
\<close>

theorem offline_append_fallback:
  assumes "session st = Some s"
    and "resp = Fetch_rejected \<or> resp = Http_not_ok \<or> resp = Http_ok_bad_body \<or>
         resp = Http_ok None"
  shows "let appended = \<lparr>role = r, content = c, output_dir = or_null outputDir,
                          msg_timestamp = Some now_iso\<rparr>;
             updated = s\<lparr>messages := messages s @ [appended],
                         message_count := message_count s + 1\<rparr>;
             result = addMessage r c outputDir now_iso resp st
         in fst result = Some updated \<and>
            session (snd result) = Some updated \<and>
            (\<not> set_throws (cache st) \<longrightarrow> item (cache (snd result)) = Some (Json (Some updated))) \<and>
            length (messages updated) = length (messages s) + 1 \<and>
            message_count updated = message_count s + 1"
  using assms by (auto simp: addMessage_def Let_def saveToCache_fields)

text \<open>
  C7 for a first message on a session whose append request comes back with an error status.
\<close>

theorem offline_append_fallback_witness:
  "session hook_active = Some (sample_session ''s1'') \<and>
   \<not> set_throws (cache hook_active) \<and>
   (let appended = \<lparr>role = User, content = ''What is a limit?'', output_dir = or_null None,
                     msg_timestamp = Some ''2025-01-01T00:00:01.000Z''\<rparr>;
        updated = (sample_session ''s1'')
                    \<lparr>messages := messages (sample_session ''s1'') @ [appended],
                     message_count := message_count (sample_session ''s1'') + 1\<rparr>;
        result = addMessage User ''What is a limit?'' None ''2025-01-01T00:00:01.000Z''
                   Http_not_ok hook_active
    in fst result = Some updated \<and> session (snd result) = Some updated \<and>
       item (cache (snd result)) = Some (Json (Some updated)) \<and>
       message_count updated = 1 \<and> length (messages updated) = 1)"
proof -
  have h1: "session hook_active = Some (sample_session ''s1'')"
    and h2: "\<not> set_throws (cache hook_active)"
    and h3: "message_count (sample_session ''s1'') = 0"
    and h4: "messages (sample_session ''s1'') = []"
    by (simp_all add: hook_active_def hook_initial_def empty_storage_def sample_session_def)
  show ?thesis
    using offline_append_fallback [OF h1, of Http_not_ok User "''What is a limit?''" None
        "''2025-01-01T00:00:01.000Z''"] h1 h2 h3 h4
    by (simp add: Let_def)
qed

subsection \<open>Timers\<close>

lemma save_session_fields:
  "requests (save_session a st) = requests st @ put_of (h, due, a)"
  "timers (save_session a st) = timers st"
  "clock (save_session a st) = clock st"
  "timeout (save_session a st) = timeout st"
  "session (save_session a st) = session st"
  by (simp_all add: save_session_def put_of_def)

lemma fire_fields:
  "requests (foldl (\<lambda>s t. save_session (snd (snd t)) s) st ts)
     = requests st @ concat (map put_of ts)"
  "timers (foldl (\<lambda>s t. save_session (snd (snd t)) s) st ts) = timers st"
  "clock (foldl (\<lambda>s t. save_session (snd (snd t)) s) st ts) = clock st"
  "timeout (foldl (\<lambda>s t. save_session (snd (snd t)) s) st ts) = timeout st"
  "session (foldl (\<lambda>s t. save_session (snd (snd t)) s) st ts) = session st"
  by (induction ts arbitrary: st; simp add: save_session_def put_of_def)+

lemma advance_fields:
  "requests (advance d st)
     = requests st @
       concat (map put_of (sort_key (\<lambda>t. fst (snd t))
                 (filter (\<lambda>t. fst (snd t) \<le> clock st + d) (timers st))))"
  "timers (advance d st) = filter (\<lambda>t. \<not> fst (snd t) \<le> clock st + d) (timers st)"
  "clock (advance d st) = clock st + d"
  "timeout (advance d st) = timeout st"
  "session (advance d st) = session st"
  by (simp_all add: advance_def Let_def fire_fields)

lemma clearSession_fields:
  "requests (clearSession st) = requests st"
  "timers (clearSession st) = timers st"
  "clock (clearSession st) = clock st"
  "timeout (clearSession st) = timeout st"
  "session (clearSession st) = None"
  by (simp_all add: clearSession_def clearCache_def removeItem_def)

lemma debouncedSave_fields:
  "requests (debouncedSave wait a st) = requests st"
  "clock (debouncedSave wait a st) = clock st"
  "session (debouncedSave wait a st) = session st"
  "timeout (debouncedSave wait a st) = Some (Suc (next_handle st))"
  "timers (debouncedSave wait a st)
     = (case timeout st of None \<Rightarrow> timers st
        | Some h \<Rightarrow> filter (\<lambda>t. fst t \<noteq> h) (timers st))
       @ [(Suc (next_handle st), clock st + wait, a)]"
  by (simp_all add: debouncedSave_def setTimeout_def clearTimeout_def Let_def
      split: option.splits)

lemma one_pending_first:
  assumes "timers st = []"
  shows "one_pending wait a (debouncedSave wait a (advance pause st))"
    and "requests (debouncedSave wait a (advance pause st)) = requests st"
  using assms
  by (simp_all add: one_pending_def debouncedSave_fields advance_fields split: option.splits)

lemma one_pending_next:
  assumes "one_pending wait b st" and "pause < wait"
  shows "one_pending wait a (debouncedSave wait a (advance pause st))"
    and "requests (debouncedSave wait a (advance pause st)) = requests st"
  using assms
  by (auto simp: one_pending_def debouncedSave_fields advance_fields split: option.splits)

lemma one_pending_calls:
  assumes "one_pending wait b st" and "\<forall>(pause, a) \<in> set cs. pause < wait"
  shows "one_pending wait (snd (last ((0, b) # cs))) (save_calls wait cs st) \<and>
         requests (save_calls wait cs st) = requests st"
  using assms
proof (induction cs arbitrary: st b)
  case Nil
  then show ?case by simp
next
  case (Cons x cs)
  obtain pause a where x: "x = (pause, a)" by (cases x)
  from Cons.prems have lt: "pause < wait" and rest: "\<forall>(pause, a) \<in> set cs. pause < wait"
    by (auto simp: x)
  note step = one_pending_next [OF Cons.prems(1) lt, of a]
  from Cons.IH [OF step(1) rest] step(2) show ?case
    by (cases cs) (simp_all add: x)
qed

lemma one_pending_fires:
  assumes "one_pending wait a st" and "wait \<le> d"
  shows "requests (advance d st) = requests st @ put_of (0, 0, a)"
    and "timers (advance d st) = []"
  using assms by (auto simp: one_pending_def advance_fields put_of_def)

text \<open>
  C8 as stated fails: one call with a session whose id is empty, and the quiet period over,
  sends no request at all.
\<close>

theorem debounce_collapsing_counterexample:
  "requests
     (advance debounceMs_default
        (save_calls debounceMs_default [(0, sample_session '''')] hook_initial)) = []"
  by (simp add: advance_fields debouncedSave_fields hook_initial_def sample_session_def
      debounceMs_default_def put_of_def)

text \<open>
  C8, amended (debounce collapsing). Starting with no timer pending, after one or more calls
  that each follow the previous one by less than the quiet period, nothing has been sent and
  exactly one timer is pending; once the quiet period has passed, the saved function has run
  once, on the argument of the last call, and has sent exactly one \<open>PUT\<close> for that session,
  or none when that session's id is empty; no timer is left.
\<close>

theorem debounce_collapsing:
  assumes "timers st = []" and "cs \<noteq> []"
    and "\<forall>(pause, a) \<in> set (tl cs). pause < wait"
    and "wait \<le> d"
  shows "requests (save_calls wait cs st) = requests st \<and>
         length (timers (save_calls wait cs st)) = 1 \<and>
         requests (advance d (save_calls wait cs st))
           = requests st @
             (if id_s (snd (last cs)) = '''' then []
              else [Put_session (id_s (snd (last cs))) (title (snd (last cs)))
                      (knowledge_base (snd (last cs)))]) \<and>
         timers (advance d (save_calls wait cs st)) = []"
proof -
  obtain pause a rest where cs: "cs = (pause, a) # rest"
    using assms(2) by (cases cs) auto
  let ?st1 = "debouncedSave wait a (advance pause st)"
  note first = one_pending_first [OF assms(1), of wait a pause]
  have "\<forall>(pause, a) \<in> set rest. pause < wait"
    using assms(3) by (simp add: cs)
  from one_pending_calls [OF first(1) this] first(2)
  have run: "one_pending wait (snd (last cs)) (save_calls wait cs st)"
    and req: "requests (save_calls wait cs st) = requests st"
    by (auto simp: cs split: if_splits)
  from run have "length (timers (save_calls wait cs st)) = 1"
    by (auto simp: one_pending_def)
  with one_pending_fires [OF run assms(4)] req show ?thesis
    by (simp add: put_of_def)
qed

text \<open>
  The amended C8 on three calls, 100 ms and 999 ms apart, with the default quiet period.
\<close>

theorem debounce_collapsing_witness:
  "timers hook_initial = [] \<and>
   (100::nat) < debounceMs_default \<and> (999::nat) < debounceMs_default \<and>
   id_s (sample_session ''s1'') \<noteq> '''' \<and>
   requests
     (advance debounceMs_default
        (save_calls debounceMs_default
           [(0, sample_session ''s0''), (100, sample_session ''s2''), (999, sample_session ''s1'')]
           hook_initial))
     = [Put_session ''s1'' ''Limits'' ''math101'']"
proof -
  let ?cs = "[(0::nat, sample_session ''s0''), (100, sample_session ''s2''),
              (999, sample_session ''s1'')]"
  have h1: "timers hook_initial = []"
    and h2: "?cs \<noteq> []"
    and h3: "\<forall>(pause, a) \<in> set (tl ?cs). pause < debounceMs_default"
    and h4: "debounceMs_default \<le> debounceMs_default"
    and h5: "(100::nat) < debounceMs_default" "(999::nat) < debounceMs_default"
    and h6: "id_s (sample_session ''s1'') \<noteq> ''''"
    and h7: "requests hook_initial = []"
    and h8: "snd (last ?cs) = sample_session ''s1''"
    and h9: "title (sample_session ''s1'') = ''Limits''"
      "knowledge_base (sample_session ''s1'') = ''math101''"
      "id_s (sample_session ''s1'') = ''s1''"
    by (simp_all add: hook_initial_def debounceMs_default_def sample_session_def)
  show ?thesis
    using debounce_collapsing [OF h1 h2 h3 h4] h1 h5 h6
    by (simp only: h7 h8 h9 append_Nil if_False simp_thms)
qed

text \<open>
  C9 as stated fails: a save is scheduled, the session is cleared before the quiet period is
  over, and the request is sent all the same once it is over.
\<close>

theorem teardown_counterexample:
  "session (clearSession (debouncedSave debounceMs_default (sample_session ''s1'') hook_active))
     = None \<and>
   requests (clearSession (debouncedSave debounceMs_default (sample_session ''s1'') hook_active))
     = [] \<and>
   requests
     (advance debounceMs_default
        (clearSession (debouncedSave debounceMs_default (sample_session ''s1'') hook_active)))
     = [Put_session ''s1'' ''Limits'' ''math101'']"
  by (simp add: advance_fields clearSession_fields debouncedSave_fields hook_active_def
      hook_initial_def sample_session_def debounceMs_default_def put_of_def)

text \<open>
  C9, amended. \<open>clearSession\<close> touches neither the pending timers nor the closure's handle:
  it empties the session state and the cache only. A save scheduled before the clear is
  therefore still carried out when its quiet period is over, for the session that was passed
  to the call.
\<close>

theorem clear_keeps_pending_write:
  assumes "timers st = []" and "pause < wait" and "wait \<le> pause + d"
  shows "timers (clearSession s') = timers s' \<and> timeout (clearSession s') = timeout s' \<and>
         requests (clearSession (advance pause (debouncedSave wait a st))) = requests st \<and>
         requests (advance d (clearSession (advance pause (debouncedSave wait a st))))
           = requests st @
             (if id_s a = '''' then []
              else [Put_session (id_s a) (title a) (knowledge_base a)])"
  using assms
  by (auto simp: advance_fields clearSession_fields debouncedSave_fields put_of_def
      split: option.splits)

text \<open>
  The amended C9 with the clear 100 ms after the call and the default quiet period.
\<close>

theorem clear_keeps_pending_write_witness:
  "timers hook_active = [] \<and> (100::nat) < debounceMs_default \<and>
   debounceMs_default \<le> 100 + 900 \<and>
   requests
     (advance 900
        (clearSession
           (advance 100 (debouncedSave debounceMs_default (sample_session ''s1'') hook_active))))
     = [Put_session ''s1'' ''Limits'' ''math101'']"
proof -
  have h1: "timers hook_active = []"
    and h2: "(100::nat) < debounceMs_default"
    and h3: "debounceMs_default \<le> 100 + 900"
    and h4: "requests hook_active = []"
    and h5: "title (sample_session ''s1'') = ''Limits''"
      "knowledge_base (sample_session ''s1'') = ''math101''"
      "id_s (sample_session ''s1'') = ''s1''"
    by (simp_all add: hook_active_def hook_initial_def debounceMs_default_def sample_session_def)
  show ?thesis
    using clear_keeps_pending_write [OF h1 h2 h3, of _ "sample_session ''s1''"] h1 h2 h3
    by (simp add: h4 h5)
qed

end
